theory Spec2Isabelle
  imports Main "HOL-Library.Word"
begin

unbundle bit_operations_syntax

section \<open>Data model\<close>

text \<open>
  The colour constants of \<^verbatim>\<open>Adafruit_EPD\<close>. A colour is a Python integer: any integer can
  be passed as a colour, so colours are \<open>int\<close>, not an enumeration.
\<close>

definition BLACK :: int where "BLACK = 0"
definition WHITE :: int where "WHITE = 1"
definition INVERSE :: int where "INVERSE = 2"
definition RED :: int where "RED = 3"
definition DARK :: int where "DARK = 4"
definition LIGHT :: int where "LIGHT = 5"

text \<open>The controller opcodes of \<^verbatim>\<open>il0373.py\<close> that the driver sends.\<close>

definition IL0373_PANEL_SETTING :: int where "IL0373_PANEL_SETTING = 0x00"
definition IL0373_POWER_OFF :: int where "IL0373_POWER_OFF = 0x02"
definition IL0373_POWER_ON :: int where "IL0373_POWER_ON = 0x04"
definition IL0373_DTM1 :: int where "IL0373_DTM1 = 0x10"
definition IL0373_DISPLAY_REFRESH :: int where "IL0373_DISPLAY_REFRESH = 0x12"
definition IL0373_DTM2 :: int where "IL0373_DTM2 = 0x13"
definition IL0373_PLL :: int where "IL0373_PLL = 0x30"
definition IL0373_CDI :: int where "IL0373_CDI = 0x50"
definition IL0373_RESOLUTION :: int where "IL0373_RESOLUTION = 0x61"
definition IL0373_VCM_DC_SETTING :: int where "IL0373_VCM_DC_SETTING = 0x82"

text \<open>The Python exceptions the modelled methods can raise.\<close>

datatype error = TypeError | AttributeError | ValueError

text \<open>
  The elements of a \<^verbatim>\<open>bytearray\<close> are bytes. Building one from a list of Python integers
  raises \<^verbatim>\<open>ValueError\<close> when an integer is not in \<^verbatim>\<open>range(256)\<close>.
\<close>

type_synonym byte = "8 word"

definition to_byte :: "int \<Rightarrow> error + byte" where
  "to_byte x = (if 0 \<le> x \<and> x < 256 then Inr (word_of_int x) else Inl ValueError)"

fun bytearray :: "int list \<Rightarrow> error + byte list" where
  "bytearray [] = Inr []"
| "bytearray (x # xs) =
     (case to_byte x of
        Inl e \<Rightarrow> Inl e
      | Inr b \<Rightarrow> (case bytearray xs of Inl e \<Rightarrow> Inl e | Inr bs \<Rightarrow> Inr (b # bs)))"

text \<open>
  What the driver does to the outside world, in the order it does it: writes to the output
  pins (\<open>SetCS\<close> for \<^verbatim>\<open>_cs\<close>, \<open>SetDC\<close> for \<^verbatim>\<open>_dc\<close>, \<open>SetSRCS\<close> for \<^verbatim>\<open>sram.cs_pin\<close>), operations
  of the SPI bus (\<open>Lock\<close> is a successful \<^verbatim>\<open>try_lock\<close>; \<open>WriteReadinto out inp\<close> is a
  full-duplex exchange of one byte, as every \<^verbatim>\<open>write_readinto\<close> of the sources is), sleeps
  (in milliseconds) and calls of the abstract \<^verbatim>\<open>draw_pixel\<close> primitive. The trace is what
  a mock bus and mock pins would record.
\<close>

datatype event =
    SetCS bool
  | SetDC bool
  | SetSRCS bool
  | Lock
  | Unlock
  | Write "byte list"
  | WriteReadinto byte byte
  | Sleep nat
  | DrawPixel int int int

text \<open>
  The auxiliary store \<^verbatim>\<open>Adafruit_MCP_SRAM\<close> (\<^verbatim>\<open>mcp_sram.py\<close>) is not among the sources. The
  driver touches its chip-select pin (\<^verbatim>\<open>sram.cs_pin.value\<close>), the class constant
  \<^verbatim>\<open>SRAM_READ\<close> (an opcode byte, taken as a parameter) and the values it holds, one Python
  integer per address.
\<close>

record sram_store =
  cs_pin :: bool
  SRAM_READ :: byte
  mem :: "int \<Rightarrow> int"

text \<open>
  The state of a driver object and of the hardware around it.
  \<^item> \<open>width\<close>, \<open>height\<close>, \<open>bw_bufsize\<close>, \<open>red_bufsize\<close>: the attributes of the same names;
  \<^item> \<open>cs\<close>, \<open>dc\<close>: the values last written to \<^verbatim>\<open>_cs\<close> and \<^verbatim>\<open>_dc\<close> (chip-select is active low);
  \<^item> \<open>busy\<close>: the \<^verbatim>\<open>_busy\<close> pin, \<open>None\<close> when it is falsy; the function gives the value of
    the input line at the n-th read, and \<open>polls\<close> counts the reads made so far;
  \<^item> \<open>sram\<close>: the \<^verbatim>\<open>sram\<close> attribute, \<open>None\<close> when it is falsy;
  \<^item> \<open>spi_locked\<close>: the lock of \<^verbatim>\<open>spi_device\<close>; \<open>miso\<close> gives the byte shifted in by the
    n-th full-duplex exchange and \<open>rx\<close> counts the exchanges made so far;
  \<^item> \<open>bw_buffer\<close>, \<open>red_buffer\<close>: the attributes \<^verbatim>\<open>_bw_buffer\<close> and \<^verbatim>\<open>_red_buffer\<close>, which no
    constructor in the sources assigns: \<open>None\<close> when the attribute does not exist;
  \<^item> \<open>trace\<close>: the events so far, oldest first.
\<close>

record epd =
  width :: int
  height :: int
  bw_bufsize :: int
  red_bufsize :: int
  cs :: bool
  dc :: bool
  busy :: "(nat \<Rightarrow> bool) option"
  polls :: nat
  sram :: "sram_store option"
  spi_locked :: bool
  miso :: "nat \<Rightarrow> byte"
  rx :: nat
  bw_buffer :: "byte list option"
  red_buffer :: "byte list option"
  trace :: "event list"

section \<open>The auxiliary store\<close>

text \<open>
  Modelled from the spec: \<^verbatim>\<open>Adafruit_MCP_SRAM.read8\<close> of \<^verbatim>\<open>mcp_sram.py\<close>, which is not among
  the sources. The spec gives the contract "read8(address) -> byte": read byte at address.
\<close>

definition read8 :: "sram_store \<Rightarrow> int \<Rightarrow> int" where
  "read8 st addr = mem st addr"

text \<open>
  Modelled from the spec: \<^verbatim>\<open>Adafruit_MCP_SRAM.write8\<close> of \<^verbatim>\<open>mcp_sram.py\<close>, which is not among
  the sources. The spec gives the contract "write8(address, byte)": write byte at address.
\<close>

definition write8 :: "sram_store \<Rightarrow> int \<Rightarrow> int \<Rightarrow> sram_store" where
  "write8 st addr v = st\<lparr>mem := (mem st)(addr := v)\<rparr>"

text \<open>
  Modelled from the spec: \<^verbatim>\<open>Adafruit_MCP_SRAM.erase\<close> of \<^verbatim>\<open>mcp_sram.py\<close>, which is not among
  the sources. The spec gives the contract "erase(start, length, fill_byte)": bulk erase/fill
  a range, here the addresses from \<open>start\<close> up to \<open>start + length - 1\<close>.
\<close>

definition erase :: "sram_store \<Rightarrow> int \<Rightarrow> int \<Rightarrow> int \<Rightarrow> sram_store" where
  "erase st start len fill_byte =
     st\<lparr>mem := (\<lambda>a. if start \<le> a \<and> a < start + len then fill_byte else mem st a)\<rparr>"

section \<open>The drawing surface of the base class\<close>

definition emit :: "event \<Rightarrow> epd \<Rightarrow> epd" where
  "emit e s = s\<lparr>trace := trace s @ [e]\<rparr>"

text \<open>
  \<^verbatim>\<open>Adafruit_EPD.draw_pixel\<close> is \<^verbatim>\<open>pass\<close>, a placeholder for a driver to override, and
  \<^verbatim>\<open>Adafruit_IL0373\<close> does not override it. The model records the call and its three
  arguments in the trace and changes nothing else.
\<close>

definition draw_pixel :: "epd \<Rightarrow> int \<Rightarrow> int \<Rightarrow> int \<Rightarrow> epd" where
  "draw_pixel s x y color = emit (DrawPixel x y color) s"

text \<open>
  \<^verbatim>\<open>Adafruit_EPD.fill_rect\<close>. Python's \<^verbatim>\<open>range(n)\<close> is empty for \<open>n \<le> 0\<close>, as \<open>[0..<nat n]\<close> is.
\<close>

definition epd_fill_rect :: "epd \<Rightarrow> int \<Rightarrow> int \<Rightarrow> int \<Rightarrow> int \<Rightarrow> int \<Rightarrow> epd" where
  "epd_fill_rect s x y w h color =
     (if w < 1 \<or> h < 1 \<or> x + w \<le> 0 then s
      else if y + h \<le> 0 \<or> y \<ge> height s \<or> x \<ge> width s then s
      else
        let xend = min (width s) (x + w);
            yend = min (height s) (y + h);
            x = max x 0;
            y = max y 0
        in fold (\<lambda>i s. fold (\<lambda>j s. draw_pixel s (x + int i) (y + int j) color)
                              [0..<nat (yend - y)] s)
                [0..<nat (xend - x)] s)"

text \<open>
  A Python call binds the positional arguments written at the call site, after the
  receiver, to the parameters after \<^verbatim>\<open>self\<close>; a call with another number of arguments
  raises \<^verbatim>\<open>TypeError\<close> before the body runs. Several call sites of \<^verbatim>\<open>epd.py\<close> pass
  \<^verbatim>\<open>self\<close> again as the first explicit argument, so the argument lists are kept as written:
  \<open>PySelf\<close> is the object, \<open>PyInt\<close> an integer. Every call of the sources that has the right
  number of arguments passes integers only.
\<close>

datatype pyval = PyInt int | PySelf

fun call_fill_rect :: "epd \<Rightarrow> pyval list \<Rightarrow> error + epd" where
  "call_fill_rect s [PyInt x, PyInt y, PyInt w, PyInt h, PyInt color] =
     Inr (epd_fill_rect s x y w h color)"
| "call_fill_rect s args = Inl TypeError"

fun call_draw_pixel :: "epd \<Rightarrow> pyval list \<Rightarrow> error + epd" where
  "call_draw_pixel s [PyInt x, PyInt y, PyInt color] = Inr (draw_pixel s x y color)"
| "call_draw_pixel s args = Inl TypeError"

text \<open>\<^verbatim>\<open>Adafruit_EPD.fill\<close>: \<^verbatim>\<open>self.fill_rect(self, 0, 0, self.width, self.height, color)\<close>.\<close>

definition epd_fill :: "epd \<Rightarrow> int \<Rightarrow> error + epd" where
  "epd_fill s color =
     call_fill_rect s [PySelf, PyInt 0, PyInt 0, PyInt (width s), PyInt (height s), PyInt color]"

text \<open>\<^verbatim>\<open>Adafruit_EPD.pixel\<close>: \<^verbatim>\<open>self.draw_pixel(self, x, y, color)\<close> after the bounds check.\<close>

definition epd_pixel :: "epd \<Rightarrow> int \<Rightarrow> int \<Rightarrow> int \<Rightarrow> error + epd" where
  "epd_pixel s x y color =
     (if x < 0 \<or> x \<ge> width s \<or> y < 0 \<or> y \<ge> height s then Inr s
      else call_draw_pixel s [PySelf, PyInt x, PyInt y, PyInt color])"

definition hline :: "epd \<Rightarrow> int \<Rightarrow> int \<Rightarrow> int \<Rightarrow> int \<Rightarrow> error + epd" where
  "hline s x y w color = call_fill_rect s [PyInt x, PyInt y, PyInt w, PyInt 1, PyInt color]"

definition vline :: "epd \<Rightarrow> int \<Rightarrow> int \<Rightarrow> int \<Rightarrow> int \<Rightarrow> error + epd" where
  "vline s x y h color = call_fill_rect s [PyInt x, PyInt y, PyInt 1, PyInt h, PyInt color]"

text \<open>
  \<^verbatim>\<open>Adafruit_EPD.rect\<close>: four calls of \<^verbatim>\<open>fill_rect\<close>, the last two with \<^verbatim>\<open>self\<close> as an extra
  first argument. An exception ends the method at the call that raises it.
\<close>

definition rect :: "epd \<Rightarrow> int \<Rightarrow> int \<Rightarrow> int \<Rightarrow> int \<Rightarrow> int \<Rightarrow> error + epd" where
  "rect s x y w h color =
     (case call_fill_rect s [PyInt x, PyInt y, PyInt w, PyInt 1, PyInt color] of
        Inl e \<Rightarrow> Inl e
      | Inr s1 \<Rightarrow>
     (case call_fill_rect s1 [PyInt x, PyInt (y + h), PyInt w, PyInt 1, PyInt color] of
        Inl e \<Rightarrow> Inl e
      | Inr s2 \<Rightarrow>
     (case call_fill_rect s2 [PySelf, PyInt x, PyInt y, PyInt 1, PyInt h, PyInt color] of
        Inl e \<Rightarrow> Inl e
      | Inr s3 \<Rightarrow>
        call_fill_rect s3 [PySelf, PyInt (x + w), PyInt y, PyInt 1, PyInt h, PyInt color])))"

section \<open>Pixels and fills of the IL0373 driver\<close>

text \<open>
  \<^verbatim>\<open>Adafruit_IL0373.pixel\<close>. The byte address \<^verbatim>\<open>((self.width - x) * self.height + y) // 8\<close>
  and the shift count \<^verbatim>\<open>7 - y%8\<close> are named \<open>pixel_addr\<close> and \<open>pixel_bit\<close>. \<^verbatim>\<open>1 << n\<close> is
  \<open>push_bit n 1\<close>, \<^verbatim>\<open>~\<close> is \<open>NOT\<close> on Python's unbounded integers, and \<^verbatim>\<open>//\<close> and \<^verbatim>\<open>%\<close> round
  towards minus infinity as \<open>div\<close> and \<open>mod\<close> do, so \<open>7 - y mod 8\<close> lies between 0 and 7.
\<close>

definition pixel_addr :: "epd \<Rightarrow> int \<Rightarrow> int \<Rightarrow> int" where
  "pixel_addr s x y = ((width s - x) * height s + y) div 8"

definition pixel_bit :: "int \<Rightarrow> nat" where
  "pixel_bit y = nat (7 - y mod 8)"

definition il0373_pixel :: "epd \<Rightarrow> int \<Rightarrow> int \<Rightarrow> int \<Rightarrow> error + epd" where
  "il0373_pixel s x y color =
     (case sram s of
        Some st \<Rightarrow>
          if x < 0 \<or> x \<ge> width s \<or> y < 0 \<or> y \<ge> height s then Inr s
          else
            let x = (if x = 0 then 1 else x);
                addr = pixel_addr s x y;
                current = (if color = RED then read8 st (addr + bw_bufsize s)
                           else read8 st addr);
                current =
                  (if color = WHITE then current OR push_bit (pixel_bit y) 1
                   else if color = RED \<or> color = BLACK
                     then current AND NOT (push_bit (pixel_bit y) 1)
                   else if color = INVERSE then current XOR push_bit (pixel_bit y) 1
                   else current)
            in Inr (s\<lparr>sram := Some (if color = RED
                                      then write8 st (addr + bw_bufsize s) current
                                      else write8 st addr current)\<rparr>)
      | None \<Rightarrow> epd_pixel s x y color)"

text \<open>\<^verbatim>\<open>Adafruit_IL0373.fill\<close>.\<close>

definition il0373_fill :: "epd \<Rightarrow> int \<Rightarrow> error + epd" where
  "il0373_fill s color =
     (let red_fill = (if color = RED then 0x00 else 0xFF);
          black_fill = (if color = BLACK then 0x00 else 0xFF)
      in case sram s of
           Some st \<Rightarrow>
             Inr (s\<lparr>sram := Some (erase (erase st 0x00 (bw_bufsize s) black_fill)
                                         (bw_bufsize s) (red_bufsize s) red_fill)\<rparr>)
         | None \<Rightarrow> epd_fill s color)"

section \<open>Pins and the SPI bus\<close>

text \<open>
  A method either returns a value, raises an exception or never returns (a spin on the bus
  lock or on the busy line that never ends): \<open>Some (Inr v)\<close>, \<open>Some (Inl e)\<close> and \<open>None\<close>.
\<close>

definition bind_run :: "(error + 'a) option \<Rightarrow> ('a \<Rightarrow> (error + 'b) option) \<Rightarrow> (error + 'b) option"
  where
  "bind_run m f =
     (case m of None \<Rightarrow> None | Some r \<Rightarrow> (case r of Inl e \<Rightarrow> Some (Inl e) | Inr v \<Rightarrow> f v))"

definition run_loop :: "'a option \<Rightarrow> (error + 'a) option" where
  "run_loop m = map_option Inr m"

definition set_cs :: "bool \<Rightarrow> epd \<Rightarrow> epd" where
  "set_cs b s = emit (SetCS b) (s\<lparr>cs := b\<rparr>)"

definition set_dc :: "bool \<Rightarrow> epd \<Rightarrow> epd" where
  "set_dc b s = emit (SetDC b) (s\<lparr>dc := b\<rparr>)"

definition set_srcs :: "bool \<Rightarrow> epd \<Rightarrow> epd" where
  "set_srcs b s = emit (SetSRCS b) (s\<lparr>sram := map_option (\<lambda>st. st\<lparr>cs_pin := b\<rparr>) (sram s)\<rparr>)"

definition sleep :: "nat \<Rightarrow> epd \<Rightarrow> epd" where
  "sleep ms s = emit (Sleep ms) s"

text \<open>
  The bus collaborator: \<^verbatim>\<open>try_lock\<close> takes the lock and answers \<^verbatim>\<open>True\<close> when it is free and
  answers \<^verbatim>\<open>False\<close> otherwise; \<^verbatim>\<open>unlock\<close> frees it. The driver is single-threaded, so nothing
  else frees a lock that is held: \<^verbatim>\<open>while not self.spi_device.try_lock(): pass\<close> then spins
  for ever, which \<open>spin_lock\<close> renders as \<open>None\<close>.
\<close>

definition try_lock :: "epd \<Rightarrow> bool \<times> epd" where
  "try_lock s = (if spi_locked s then (False, s) else (True, emit Lock (s\<lparr>spi_locked := True\<rparr>)))"

partial_function (option) spin_lock :: "epd \<Rightarrow> epd option" where
  "spin_lock s = (case try_lock s of (ok, s') \<Rightarrow> if ok then Some s' else spin_lock s')"

definition unlock :: "epd \<Rightarrow> epd" where
  "unlock s = emit Unlock (s\<lparr>spi_locked := False\<rparr>)"

definition spi_write :: "byte list \<Rightarrow> epd \<Rightarrow> epd" where
  "spi_write buf s = emit (Write buf) s"

text \<open>\<^verbatim>\<open>write_readinto\<close> on buffers of one byte: the byte sent, the byte received.\<close>

definition write_readinto :: "byte \<Rightarrow> epd \<Rightarrow> byte \<times> epd" where
  "write_readinto out s =
     (miso s (rx s), emit (WriteReadinto out (miso s (rx s))) (s\<lparr>rx := Suc (rx s)\<rparr>))"

text \<open>
  \<^verbatim>\<open>while self._busy.value is False: pass\<close>: the line is read until a read gives \<^verbatim>\<open>True\<close>. The
  result is the number of reads made so far; a line that never becomes ready gives \<open>None\<close>.
\<close>

partial_function (option) wait_ready :: "(nat \<Rightarrow> bool) \<Rightarrow> nat \<Rightarrow> nat option" where
  "wait_ready line n = (if line n then Some (Suc n) else wait_ready line (Suc n))"

text \<open>
  The pattern of \<^verbatim>\<open>power_up\<close> and \<^verbatim>\<open>update\<close>: \<^verbatim>\<open>if self._busy:\<close> wait for the line, else
  \<^verbatim>\<open>time.sleep\<close> for the fallback time.
\<close>

definition busy_wait :: "nat \<Rightarrow> epd \<Rightarrow> epd option" where
  "busy_wait fallback_ms s =
     (case busy s of
        Some line \<Rightarrow> map_option (\<lambda>n. s\<lparr>polls := n\<rparr>) (wait_ready line (polls s))
      | None \<Rightarrow> Some (sleep fallback_ms s))"

section \<open>Commands and data\<close>

text \<open>\<^verbatim>\<open>Adafruit_EPD.data\<close>.\<close>

definition epd_data :: "epd \<Rightarrow> byte list \<Rightarrow> epd" where
  "epd_data s dat = unlock (set_cs True (spi_write dat (set_dc True s)))"

text \<open>
  \<^verbatim>\<open>Adafruit_EPD.command\<close>. \<^verbatim>\<open>bytearray([cmd])\<close> is built after the lock is taken; the result
  is \<^verbatim>\<open>outbuf[0]\<close>, the byte shifted in while the command byte was shifted out.
\<close>

definition epd_command ::
  "epd \<Rightarrow> int \<Rightarrow> byte list option \<Rightarrow> bool \<Rightarrow> (error + byte \<times> epd) option" where
  "epd_command s cmd data end' =
     bind_run (run_loop (spin_lock (set_cs False (set_dc False (set_cs True s))))) (\<lambda>s.
     bind_run (Some (to_byte cmd)) (\<lambda>c.
       case write_readinto c s of (outbuf, s) \<Rightarrow>
         let s = (case data of
                    Some dat \<Rightarrow> epd_data s dat
                  | None \<Rightarrow> if end' then set_cs True s else s)
         in Some (Inr (outbuf, unlock s))))"

section \<open>The refresh sequence of the IL0373 driver\<close>

text \<open>\<^verbatim>\<open>Adafruit_IL0373.power_up\<close>. \<^verbatim>\<open>>>\<close> on Python integers is \<open>drop_bit\<close>.\<close>

definition power_up :: "epd \<Rightarrow> (error + epd) option" where
  "power_up s =
     bind_run (epd_command s IL0373_POWER_ON None True) (\<lambda>(r, s).
     bind_run (run_loop (busy_wait 3000 s)) (\<lambda>s.
     bind_run (epd_command (sleep 200 s) IL0373_PANEL_SETTING (Some [0xCF]) True) (\<lambda>(r, s).
     bind_run (epd_command s IL0373_CDI (Some [0x37]) True) (\<lambda>(r, s).
     bind_run (epd_command s IL0373_PLL (Some [0x29]) True) (\<lambda>(r, s).
     bind_run (Some (bytearray [height s AND 0xFF, drop_bit 8 (height s) AND 0xFF,
                                width s AND 0xFF, drop_bit 8 (width s) AND 0xFF])) (\<lambda>res.
     bind_run (epd_command s IL0373_RESOLUTION (Some res) True) (\<lambda>(r, s).
     bind_run (epd_command s IL0373_VCM_DC_SETTING (Some [0x0A]) True) (\<lambda>(r, s).
     Some (Inr s)))))))))"

text \<open>\<^verbatim>\<open>Adafruit_IL0373.update\<close>.\<close>

definition update :: "epd \<Rightarrow> (error + epd) option" where
  "update s =
     bind_run (epd_command s IL0373_DISPLAY_REFRESH None True) (\<lambda>(r, s).
     bind_run (run_loop (busy_wait 15000 s)) (\<lambda>s.
     bind_run (epd_command s IL0373_CDI (Some [0x17]) True) (\<lambda>(r, s).
     bind_run (epd_command s IL0373_VCM_DC_SETTING (Some [0x00]) True) (\<lambda>(r, s).
     bind_run (epd_command s IL0373_POWER_OFF None True) (\<lambda>(r, s).
     Some (Inr (sleep 2000 s)))))))"

text \<open>
  The loop of a store-backed pass:
  \<^verbatim>\<open>for _ in range(n): outbuf[0] = xfer[0]; self.spi_device.write_readinto(outbuf, xfer)\<close>.
\<close>

fun xfer_loop :: "nat \<Rightarrow> byte \<Rightarrow> epd \<Rightarrow> byte \<times> epd" where
  "xfer_loop 0 xfer s = (xfer, s)"
| "xfer_loop (Suc n) xfer s = (case write_readinto xfer s of (xfer', s') \<Rightarrow> xfer_loop n xfer' s')"

text \<open>
  The first pass of \<^verbatim>\<open>Adafruit_IL0373.display\<close> with a store (from the first \<^verbatim>\<open>try_lock\<close> to
  \<^verbatim>\<open>self.sram.cs_pin.value = True\<close>): the black/white plane, sent with \<^verbatim>\<open>DTM1\<close>. The lock
  taken before the loop is still held when the pass ends.
\<close>

definition display_sram_dtm1 :: "sram_store \<Rightarrow> epd \<Rightarrow> (error + epd) option" where
  "display_sram_dtm1 st s =
     bind_run (run_loop (spin_lock s)) (\<lambda>s.
     bind_run (epd_command
                 (unlock (spi_write [0x00, 0x00] (spi_write [SRAM_READ st] (set_srcs False s))))
                 IL0373_DTM1 None False) (\<lambda>(cmd, s).
     bind_run (run_loop (spin_lock s)) (\<lambda>s.
       case xfer_loop (nat (bw_bufsize s)) cmd (set_dc True s) of (xfer, s) \<Rightarrow>
         Some (Inr (set_srcs True (set_cs True s))))))"

text \<open>
  The second pass with a store (from \<^verbatim>\<open>self.sram.cs_pin.value = False\<close> after the sleep to the
  last \<^verbatim>\<open>unlock\<close>): the red plane, sent with \<^verbatim>\<open>DTM2\<close>. Its loop too runs
  \<^verbatim>\<open>range(self.bw_bufsize)\<close>.
\<close>

definition display_sram_dtm2 :: "sram_store \<Rightarrow> epd \<Rightarrow> (error + epd) option" where
  "display_sram_dtm2 st s =
     bind_run (Some (bytearray [drop_bit 8 (bw_bufsize s), bw_bufsize s AND 0xFF])) (\<lambda>start.
     bind_run (epd_command
                 (unlock (spi_write start (spi_write [SRAM_READ st] (set_srcs False s))))
                 IL0373_DTM2 None False) (\<lambda>(cmd, s).
     bind_run (run_loop (spin_lock s)) (\<lambda>s.
       case xfer_loop (nat (bw_bufsize s)) cmd (set_dc True s) of (xfer, s) \<Rightarrow>
         Some (Inr (unlock (set_srcs True (set_cs True s)))))))"

text \<open>
  A pass without a store: the plane is the buffer attribute, written as one block. Reading
  an attribute that does not exist raises \<^verbatim>\<open>AttributeError\<close>.
\<close>

definition display_buffer :: "int \<Rightarrow> byte list option \<Rightarrow> epd \<Rightarrow> (error + epd) option" where
  "display_buffer dtm buffer s =
     bind_run (epd_command s dtm None False) (\<lambda>(cmd, s).
     bind_run (run_loop (spin_lock s)) (\<lambda>s.
       case buffer of
         None \<Rightarrow> Some (Inl AttributeError)
       | Some buf \<Rightarrow> Some (Inr (unlock (set_cs True (spi_write buf (set_dc True s)))))))"

text \<open>\<^verbatim>\<open>Adafruit_IL0373.display\<close>.\<close>

definition display :: "epd \<Rightarrow> (error + epd) option" where
  "display s =
     bind_run (power_up s) (\<lambda>s.
     bind_run
       (case sram s of
          Some st \<Rightarrow>
            bind_run (display_sram_dtm1 st s) (\<lambda>s. display_sram_dtm2 st (sleep 2 s))
        | None \<Rightarrow>
            bind_run (display_buffer IL0373_DTM1 (bw_buffer s) s) (\<lambda>s.
              display_buffer IL0373_DTM2 (red_buffer s) (sleep 20 s)))
       update)"

section \<open>Reading a trace\<close>

text \<open>The events a call added to the trace.\<close>

definition since :: "epd \<Rightarrow> epd \<Rightarrow> event list" where
  "since s s' = drop (length (trace s)) (trace s')"

text \<open>
  The controller commands in a run of events: the bytes clocked out while the display's
  chip-select is asserted (low) and the data/command line says command (low). The two
  booleans are the levels of \<^verbatim>\<open>_cs\<close> and \<^verbatim>\<open>_dc\<close> before the first event.
\<close>

fun controller_commands :: "bool \<Rightarrow> bool \<Rightarrow> event list \<Rightarrow> byte list" where
  "controller_commands c d [] = []"
| "controller_commands c d (SetCS b # es) = controller_commands b d es"
| "controller_commands c d (SetDC b # es) = controller_commands c b es"
| "controller_commands c d (Write buf # es) =
     (if \<not> c \<and> \<not> d then buf else []) @ controller_commands c d es"
| "controller_commands c d (WriteReadinto out inp # es) =
     (if \<not> c \<and> \<not> d then [out] else []) @ controller_commands c d es"
| "controller_commands c d (e # es) = controller_commands c d es"

text \<open>The full-duplex exchanges in a run of events: byte sent, byte received.\<close>

fun exchanges :: "event list \<Rightarrow> (byte \<times> byte) list" where
  "exchanges [] = []"
| "exchanges (WriteReadinto out inp # es) = (out, inp) # exchanges es"
| "exchanges (e # es) = exchanges es"

text \<open>
  An 8 by 8 panel with a store, its bus free and its busy line ready from the third read
  on, used to run the definitions.
\<close>

definition panel8 :: epd where
  "panel8 =
     \<lparr>width = 8, height = 8, bw_bufsize = 8, red_bufsize = 8, cs = True, dc = False,
      busy = Some (\<lambda>n. 2 \<le> n), polls = 0,
      sram = Some \<lparr>cs_pin = True, SRAM_READ = 0x03, mem = (\<lambda>a. 0xFF)\<rparr>,
      spi_locked = False, miso = (\<lambda>n. of_nat n), rx = 0,
      bw_buffer = None, red_buffer = None, trace = []\<rparr>"

section \<open>Closed forms of the refresh sequence\<close>

text \<open>
  The state a call of \<^verbatim>\<open>command\<close> leaves behind when the lock was free and the command is a
  byte: the pins, the lock, the exchange counter and the events it adds. \<open>epd_command_eq\<close>
  below proves that \<open>epd_command\<close> computes this state.
\<close>

definition after_command :: "epd \<Rightarrow> byte \<Rightarrow> byte list option \<Rightarrow> bool \<Rightarrow> epd" where
  "after_command s c data e =
     s\<lparr>cs := (data \<noteq> None \<or> e), dc := (data \<noteq> None), spi_locked := False, rx := Suc (rx s),
       trace := trace s @ [SetCS True, SetDC False, SetCS False, Lock, WriteReadinto c (miso s (rx s))]
          @ (case data of Some dat \<Rightarrow> [SetDC True, Write dat, SetCS True, Unlock]
             | None \<Rightarrow> if e then [SetCS True] else []) @ [Unlock]\<rparr>"

text \<open>The events of the loop of a store-backed pass: each exchange sends the byte before.\<close>

fun xfer_events :: "(nat \<Rightarrow> byte) \<Rightarrow> nat \<Rightarrow> nat \<Rightarrow> byte \<Rightarrow> event list" where
  "xfer_events f k 0 x = []"
| "xfer_events f k (Suc n) x = WriteReadinto x (f k) # xfer_events f (Suc k) n (f k)"

text \<open>The states after the two store-backed passes and after a pass from a buffer.\<close>

definition after_dtm1 :: "sram_store \<Rightarrow> epd \<Rightarrow> epd" where
  "after_dtm1 st s =
     s\<lparr>cs := True, dc := True, sram := map_option (\<lambda>st. st\<lparr>cs_pin := True\<rparr>) (sram s),
       spi_locked := True, rx := Suc (rx s) + nat (bw_bufsize s),
       trace := trace s @
         [Lock, SetSRCS False, Write [SRAM_READ st], Write [0x00, 0x00], Unlock,
          SetCS True, SetDC False, SetCS False, Lock, WriteReadinto 0x10 (miso s (rx s)), Unlock,
          Lock, SetDC True]
         @ xfer_events (miso s) (Suc (rx s)) (nat (bw_bufsize s)) (miso s (rx s))
         @ [SetCS True, SetSRCS True]\<rparr>"

definition after_dtm2 :: "sram_store \<Rightarrow> byte list \<Rightarrow> epd \<Rightarrow> epd" where
  "after_dtm2 st start s =
     s\<lparr>cs := True, dc := True, sram := map_option (\<lambda>st. st\<lparr>cs_pin := True\<rparr>) (sram s),
       spi_locked := False, rx := Suc (rx s) + nat (bw_bufsize s),
       trace := trace s @
         [SetSRCS False, Write [SRAM_READ st], Write start, Unlock,
          SetCS True, SetDC False, SetCS False, Lock, WriteReadinto 0x13 (miso s (rx s)), Unlock,
          Lock, SetDC True]
         @ xfer_events (miso s) (Suc (rx s)) (nat (bw_bufsize s)) (miso s (rx s))
         @ [SetCS True, SetSRCS True, Unlock]\<rparr>"

definition after_buffer :: "byte \<Rightarrow> byte list \<Rightarrow> epd \<Rightarrow> epd" where
  "after_buffer c buf s =
     s\<lparr>cs := True, dc := True, spi_locked := False, rx := Suc (rx s),
       trace := trace s @
         [SetCS True, SetDC False, SetCS False, Lock, WriteReadinto c (miso s (rx s)), Unlock,
          Lock, SetDC True, Write buf, SetCS True, Unlock]\<rparr>"

text \<open>The payload of the resolution command and the states after the tails of
  \<^verbatim>\<open>power_up\<close> and \<^verbatim>\<open>update\<close>, which follow the wait for the busy line.\<close>

definition resolution :: "epd \<Rightarrow> byte list" where
  "resolution s =
     [word_of_int (height s AND 0xFF), word_of_int (drop_bit 8 (height s) AND 0xFF),
      word_of_int (width s AND 0xFF), word_of_int (drop_bit 8 (width s) AND 0xFF)]"

definition after_power_up :: "epd \<Rightarrow> epd" where
  "after_power_up s =
     after_command
       (after_command
         (after_command
           (after_command
             (after_command (sleep 200 s) 0x00 (Some [0xCF]) True)
             0x50 (Some [0x37]) True)
           0x30 (Some [0x29]) True)
         0x61 (Some (resolution s)) True)
       0x82 (Some [0x0A]) True"

definition after_update :: "epd \<Rightarrow> epd" where
  "after_update s =
     sleep 2000
       (after_command
         (after_command
           (after_command s 0x50 (Some [0x17]) True)
           0x82 (Some [0x00]) True)
         0x02 None True)"

text \<open>
  \<open>issued s s' cmds\<close>: the run from \<open>s\<close> to \<open>s'\<close> added events to the trace whose controller
  commands are \<open>cmds\<close>, whatever events follow.
\<close>

definition issued :: "epd \<Rightarrow> epd \<Rightarrow> byte list \<Rightarrow> bool" where
  "issued s s' cmds \<longleftrightarrow>
     (\<exists>evs. trace s' = trace s @ evs \<and>
        (\<forall>es. controller_commands (cs s) (dc s) (evs @ es) =
                cmds @ controller_commands (cs s') (dc s') es))"

section \<open>Pixel writes\<close>

lemma sram_update_same: "sram s = Some st \<Longrightarrow> s\<lparr>sram := Some st\<rparr> = s"
  by (cases s) simp

lemma pixel_bit_le: "pixel_bit y \<le> 7"
  by (simp add: pixel_bit_def)

text \<open>
  C1. With a store present and (x, y) in bounds, \<open>il0373_pixel\<close> replaces x = 0 by x = 1,
  addresses the byte \<open>((width - x) * height + y) div 8\<close>, moved up by \<open>bw_bufsize\<close> exactly
  when the colour is RED, and changes bit \<open>7 - y mod 8\<close> of that byte alone: WHITE sets it,
  BLACK and RED clear it, INVERSE flips it.
\<close>

theorem il0373_pixel_store:
  assumes "sram s = Some st" and "0 \<le> x" and "x < width s" and "0 \<le> y" and "y < height s"
    and "color \<in> {WHITE, BLACK, RED, INVERSE}"
  shows "il0373_pixel s x y color =
     (let x1 = (if x = 0 then 1 else x);
          a = ((width s - x1) * height s + y) div 8 + (if color = RED then bw_bufsize s else 0);
          k = nat (7 - y mod 8);
          old = mem st a
      in Inr (s\<lparr>sram := Some (st\<lparr>mem := (mem st)(a :=
                 if color = WHITE then set_bit k old
                 else if color = INVERSE then flip_bit k old
                 else unset_bit k old)\<rparr>)\<rparr>))"
proof -
  consider "color = WHITE" | "color = BLACK" | "color = RED" | "color = INVERSE"
    using assms(6) by auto
  then show ?thesis
  proof cases
    case 1
    then show ?thesis using assms(1-5)
      by (simp add: il0373_pixel_def pixel_addr_def pixel_bit_def Let_def read8_def write8_def
          INVERSE_def RED_def WHITE_def BLACK_def set_bit_eq_or del: push_bit_of_1)
  next
    case 2
    then show ?thesis using assms(1-5)
      by (simp add: il0373_pixel_def pixel_addr_def pixel_bit_def Let_def read8_def write8_def
          INVERSE_def RED_def WHITE_def BLACK_def unset_bit_eq_and_not del: push_bit_of_1)
  next
    case 3
    then show ?thesis using assms(1-5)
      by (simp add: il0373_pixel_def pixel_addr_def pixel_bit_def Let_def read8_def write8_def
          INVERSE_def RED_def WHITE_def BLACK_def unset_bit_eq_and_not del: push_bit_of_1)
  next
    case 4
    then show ?thesis using assms(1-5)
      by (simp add: il0373_pixel_def pixel_addr_def pixel_bit_def Let_def read8_def write8_def
          INVERSE_def RED_def WHITE_def BLACK_def flip_bit_eq_xor del: push_bit_of_1)
  qed
qed

theorem il0373_pixel_store_witness:
  "sram panel8 = Some \<lparr>cs_pin = True, SRAM_READ = 0x03, mem = (\<lambda>a. 0xFF)\<rparr>
   \<and> (0::int) \<le> 3 \<and> 3 < width panel8 \<and> (0::int) \<le> 5 \<and> 5 < height panel8
   \<and> RED \<in> {WHITE, BLACK, RED, INVERSE}
   \<and> il0373_pixel panel8 3 5 RED =
       Inr (panel8\<lparr>sram := Some \<lparr>cs_pin = True, SRAM_READ = 0x03,
                                   mem = (\<lambda>a. 0xFF)(13 := 0xFB)\<rparr>\<rparr>)"
  using il0373_pixel_store
    [of panel8 "\<lparr>cs_pin = True, SRAM_READ = 0x03, mem = (\<lambda>a. 0xFF)\<rparr>" 3 5 RED]
  by (simp add: panel8_def BLACK_def WHITE_def RED_def INVERSE_def Let_def unset_bit_eq_and_not)

text \<open>
  C6. With a store present and (x, y) in bounds, two INVERSE writes of the same pixel in
  succession return the driver, and with it every byte of the store, to the state before
  the first write.
\<close>

theorem il0373_pixel_inverse_twice:
  assumes "sram s = Some st" and "0 \<le> x" and "x < width s" and "0 \<le> y" and "y < height s"
  shows "\<exists>s1. il0373_pixel s x y INVERSE = Inr s1 \<and> il0373_pixel s1 x y INVERSE = Inr s"
  using assms
  by (simp add: il0373_pixel_def Let_def read8_def write8_def sram_update_same
      pixel_addr_def INVERSE_def RED_def WHITE_def BLACK_def xor.assoc)

theorem il0373_pixel_inverse_twice_witness:
  "sram panel8 = Some \<lparr>cs_pin = True, SRAM_READ = 0x03, mem = (\<lambda>a. 0xFF)\<rparr>
   \<and> (0::int) \<le> 3 \<and> 3 < width panel8 \<and> (0::int) \<le> 5 \<and> 5 < height panel8
   \<and> (\<exists>s1. il0373_pixel panel8 3 5 INVERSE = Inr s1 \<and> il0373_pixel s1 3 5 INVERSE = Inr panel8)"
  using il0373_pixel_inverse_twice
    [of panel8 "\<lparr>cs_pin = True, SRAM_READ = 0x03, mem = (\<lambda>a. 0xFF)\<rparr>" 3 5]
  by (simp add: panel8_def)

text \<open>
  C9. For a coordinate outside the panel (x < 0, x \<ge> width, y < 0 or y \<ge> height) the pixel
  method of the driver, with or without a store, and the pixel method of the base class
  return normally and leave the whole state, store included, as it was.
\<close>

theorem pixel_out_of_bounds:
  assumes "x < 0 \<or> x \<ge> width s \<or> y < 0 \<or> y \<ge> height s"
  shows "il0373_pixel s x y color = Inr s \<and> epd_pixel s x y color = Inr s"
  using assms by (auto simp add: il0373_pixel_def epd_pixel_def split: option.splits)

theorem pixel_out_of_bounds_witness:
  "((8::int) < 0 \<or> 8 \<ge> width panel8 \<or> (2::int) < 0 \<or> 2 \<ge> height panel8)
   \<and> il0373_pixel panel8 8 2 WHITE = Inr panel8 \<and> epd_pixel panel8 8 2 WHITE = Inr panel8"
  using pixel_out_of_bounds [of 8 panel8 2 WHITE]
  by (simp add: panel8_def)

text \<open>
  C10. With a store present, (x, y) in bounds and a colour that is none of WHITE, BLACK, RED
  and INVERSE, the driver reads the addressed byte of the black/white plane and writes the
  same value back: the state after the call is the state before it.
\<close>

theorem il0373_pixel_other_color:
  assumes "sram s = Some st" and "0 \<le> x" and "x < width s" and "0 \<le> y" and "y < height s"
    and "color \<notin> {WHITE, BLACK, RED, INVERSE}"
  shows "il0373_pixel s x y color =
           Inr (s\<lparr>sram := Some (write8 st (pixel_addr s (if x = 0 then 1 else x) y)
                                   (read8 st (pixel_addr s (if x = 0 then 1 else x) y)))\<rparr>)
         \<and> il0373_pixel s x y color = Inr s"
  using assms by (simp add: il0373_pixel_def Let_def read8_def write8_def sram_update_same)

theorem il0373_pixel_other_color_witness:
  "sram panel8 = Some \<lparr>cs_pin = True, SRAM_READ = 0x03, mem = (\<lambda>a. 0xFF)\<rparr>
   \<and> (0::int) \<le> 3 \<and> 3 < width panel8 \<and> (0::int) \<le> 5 \<and> 5 < height panel8
   \<and> DARK \<notin> {WHITE, BLACK, RED, INVERSE}
   \<and> il0373_pixel panel8 3 5 DARK = Inr panel8"
  using il0373_pixel_other_color
    [of panel8 "\<lparr>cs_pin = True, SRAM_READ = 0x03, mem = (\<lambda>a. 0xFF)\<rparr>" 3 5 DARK]
  by (simp add: panel8_def BLACK_def WHITE_def RED_def INVERSE_def DARK_def
      read8_def write8_def pixel_addr_def fun_eq_iff)

section \<open>Fills\<close>

text \<open>
  C5. With a store present, fill is two bulk erases of the store: the black/white plane
  (addresses 0 up to \<open>bw_bufsize\<close>) becomes 0x00 for BLACK and 0xFF for every other colour,
  WHITE and RED included, and the red plane (the next \<open>red_bufsize\<close> addresses) becomes 0x00
  for RED and 0xFF for every other colour.
\<close>

theorem il0373_fill_store:
  assumes "sram s = Some st"
  shows "let st' = erase (erase st 0 (bw_bufsize s) (if color = BLACK then 0x00 else 0xFF))
                         (bw_bufsize s) (red_bufsize s) (if color = RED then 0x00 else 0xFF)
         in il0373_fill s color = Inr (s\<lparr>sram := Some st'\<rparr>)
            \<and> (\<forall>a. 0 \<le> a \<and> a < bw_bufsize s \<longrightarrow>
                     mem st' a = (if color = BLACK then 0x00 else 0xFF))
            \<and> (\<forall>a. bw_bufsize s \<le> a \<and> a < bw_bufsize s + red_bufsize s \<longrightarrow>
                     mem st' a = (if color = RED then 0x00 else 0xFF))"
  using assms by (simp add: il0373_fill_def erase_def Let_def)

theorem il0373_fill_store_witness:
  "sram panel8 = Some \<lparr>cs_pin = True, SRAM_READ = 0x03, mem = (\<lambda>a. 0xFF)\<rparr>
   \<and> (\<exists>st'. il0373_fill panel8 BLACK = Inr (panel8\<lparr>sram := Some st'\<rparr>)
        \<and> mem st' 0 = 0x00 \<and> mem st' 7 = 0x00 \<and> mem st' 8 = 0xFF \<and> mem st' 15 = 0xFF)"
  using il0373_fill_store
    [of panel8 "\<lparr>cs_pin = True, SRAM_READ = 0x03, mem = (\<lambda>a. 0xFF)\<rparr>" BLACK]
  by (simp add: panel8_def BLACK_def RED_def Let_def)

section \<open>Injectivity of the addressing\<close>

text \<open>
  On a panel of width 4 and height 4 the coordinates (2, 0) and (1, 0), both in bounds and
  off column 0, have the same byte address and the same bit position: the bit position
  follows \<open>y mod 8\<close> while the address follows the running index \<open>(width - x) * height + y\<close>.
\<close>

theorem pixel_addressing_collision:
  "(0::int) < 2 \<and> 2 < width (panel8\<lparr>width := 4, height := 4\<rparr>)
   \<and> (0::int) < 1 \<and> 1 < width (panel8\<lparr>width := 4, height := 4\<rparr>)
   \<and> (0::int) \<le> 0 \<and> 0 < height (panel8\<lparr>width := 4, height := 4\<rparr>)
   \<and> ((2::int), (0::int)) \<noteq> (1, 0)
   \<and> (pixel_addr (panel8\<lparr>width := 4, height := 4\<rparr>) 2 0, pixel_bit 0) =
     (pixel_addr (panel8\<lparr>width := 4, height := 4\<rparr>) 1 0, pixel_bit 0)"
  by (simp add: panel8_def pixel_addr_def pixel_bit_def)

text \<open>
  C4, amended. When the height of the panel is a multiple of 8, two different in-bounds
  coordinates off column 0 never share both the byte address and the bit position.
\<close>

theorem pixel_addressing_injective:
  assumes "8 dvd height s"
    and "0 < x1" and "x1 < width s" and "0 \<le> y1" and "y1 < height s"
    and "0 < x2" and "x2 < width s" and "0 \<le> y2" and "y2 < height s"
    and "(x1, y1) \<noteq> (x2, y2)"
  shows "(pixel_addr s x1 y1, pixel_bit y1) \<noteq> (pixel_addr s x2 y2, pixel_bit y2)"
proof
  assume eq: "(pixel_addr s x1 y1, pixel_bit y1) = (pixel_addr s x2 y2, pixel_bit y2)"
  define w h where "w = width s" and "h = height s"
  from assms(1) obtain m where h: "h = 8 * m" by (auto simp: dvd_def h_def)
  have "0 \<le> 7 - y1 mod 8" "0 \<le> 7 - y2 mod 8" by simp_all
  moreover have "nat (7 - y1 mod 8) = nat (7 - y2 mod 8)"
    using eq by (simp add: pixel_bit_def)
  ultimately have "7 - y1 mod 8 = 7 - y2 mod 8" by (simp only: eq_nat_nat_iff)
  then have m: "y1 mod 8 = y2 mod 8" by simp
  have a: "((w - x1) * h + y1) div 8 = ((w - x2) * h + y2) div 8"
    using eq by (simp add: pixel_addr_def w_def h_def)
  have d1: "((w - x1) * h + y1) div 8 = (w - x1) * m + y1 div 8" unfolding h by simp
  have d2: "((w - x2) * h + y2) div 8 = (w - x2) * m + y2 div 8" unfolding h by simp
  have "8 * ((w - x1) * m + y1 div 8) + y1 mod 8 = 8 * ((w - x2) * m + y2 div 8) + y2 mod 8"
    using a m d1 d2 by simp
  then have n: "(w - x1) * h + y1 = (w - x2) * h + y2"
    unfolding h by (simp add: algebra_simps)
  then have "((w - x1) * h + y1) mod h = ((w - x2) * h + y2) mod h" by simp
  then have y: "y1 = y2" using assms(4,5,8,9) by (simp add: h_def)
  with n have "(w - x1) * h = (w - x2) * h" by simp
  then have "x1 = x2" using assms(4,5) by (simp add: h_def)
  with y assms(10) show False by simp
qed

theorem pixel_addressing_injective_witness:
  "8 dvd height panel8 \<and> (0::int) < 2 \<and> 2 < width panel8 \<and> (0::int) \<le> 0 \<and> 0 < height panel8
   \<and> (0::int) < 1 \<and> 1 < width panel8 \<and> ((2::int), (0::int)) \<noteq> (1, 0)
   \<and> (pixel_addr panel8 2 0, pixel_bit 0) \<noteq> (pixel_addr panel8 1 0, pixel_bit 0)"
  using pixel_addressing_injective [of panel8 2 0 1 0]
  by (simp add: panel8_def)

section \<open>The drawing surface\<close>

text \<open>
  \<^verbatim>\<open>fill_rect\<close> itself, and with it \<^verbatim>\<open>hline\<close> and \<^verbatim>\<open>vline\<close>, calls \<^verbatim>\<open>draw_pixel\<close> once for
  each coordinate of the rectangle that lies on the panel, and for no other.
\<close>

lemma fold_draw_column:
  "trace (fold (\<lambda>j s. draw_pixel s a (y + int j) c) js s) =
     trace s @ map (\<lambda>j. DrawPixel a (y + int j) c) js"
  by (induction js arbitrary: s) (simp_all add: draw_pixel_def emit_def)

lemma fold_draw_rows:
  "trace (fold (\<lambda>i s. fold (\<lambda>j s. draw_pixel s (x + int i) (y + int j) c) js s) is s) =
     trace s @ concat (map (\<lambda>i. map (\<lambda>j. DrawPixel (x + int i) (y + int j) c) js) is)"
  by (induction "is" arbitrary: s) (simp_all add: fold_draw_column)

lemma rows_product:
  "concat (map (\<lambda>i. map (\<lambda>j. DrawPixel (x + int i) (y + int j) c) js) is) =
     map (\<lambda>(i, j). DrawPixel (x + int i) (y + int j) c) (List.product is js)"
  by (induction "is") (simp_all add: comp_def)

lemma set_rows:
  "set (concat (map (\<lambda>i. map (\<lambda>j. DrawPixel (x + int i) (y + int j) c) [0..<m]) [0..<n])) =
     {DrawPixel i j c | i j. x \<le> i \<and> i < x + int n \<and> y \<le> j \<and> j < y + int m}"
proof (intro set_eqI iffI)
  fix e
  assume "e \<in> set (concat (map (\<lambda>i. map (\<lambda>j. DrawPixel (x + int i) (y + int j) c) [0..<m]) [0..<n]))"
  then show "e \<in> {DrawPixel i j c | i j. x \<le> i \<and> i < x + int n \<and> y \<le> j \<and> j < y + int m}"
    by auto
next
  fix e
  assume "e \<in> {DrawPixel i j c | i j. x \<le> i \<and> i < x + int n \<and> y \<le> j \<and> j < y + int m}"
  then obtain i j where e: "e = DrawPixel i j c" and b: "x \<le> i" "i < x + int n" "y \<le> j" "j < y + int m"
    by blast
  from b have "nat (i - x) < n" "nat (j - y) < m" "i = x + int (nat (i - x))" "j = y + int (nat (j - y))"
    by auto
  then have "(nat (i - x), nat (j - y)) \<in> set (List.product [0..<n] [0..<m])"
    and "e = (\<lambda>(i, j). DrawPixel (x + int i) (y + int j) c) (nat (i - x), nat (j - y))"
    using e by simp_all
  then show "e \<in> set (concat (map (\<lambda>i. map (\<lambda>j. DrawPixel (x + int i) (y + int j) c) [0..<m]) [0..<n]))"
    unfolding rows_product by (metis (no_types, lifting) image_eqI set_map)
qed

lemma distinct_rows:
  "distinct (concat (map (\<lambda>i. map (\<lambda>j. DrawPixel (x + int i) (y + int j) c) [0..<m]) [0..<n]))"
  unfolding rows_product
  by (auto simp add: distinct_map distinct_product inj_on_def)

lemma epd_fill_rect_draws:
  "distinct (since s (epd_fill_rect s x y w h c))"
  "set (since s (epd_fill_rect s x y w h c)) =
     {DrawPixel i j c | i j. x \<le> i \<and> i < x + w \<and> 0 \<le> i \<and> i < width s
                            \<and> y \<le> j \<and> j < y + h \<and> 0 \<le> j \<and> j < height s}"
proof -
  let ?x0 = "max x 0" and ?y0 = "max y 0"
  let ?n = "nat (min (width s) (x + w) - max x 0)" and ?m = "nat (min (height s) (y + h) - max y 0)"
  let ?rows = "concat (map (\<lambda>i. map (\<lambda>j. DrawPixel (?x0 + int i) (?y0 + int j) c) [0..<?m]) [0..<?n])"
  have eq: "since s (epd_fill_rect s x y w h c) =
      (if w < 1 \<or> h < 1 \<or> x + w \<le> 0 \<or> y + h \<le> 0 \<or> y \<ge> height s \<or> x \<ge> width s then [] else ?rows)"
    by (simp add: since_def epd_fill_rect_def Let_def fold_draw_rows)
  show "distinct (since s (epd_fill_rect s x y w h c))"
    unfolding eq using distinct_rows by simp
  show "set (since s (epd_fill_rect s x y w h c)) =
     {DrawPixel i j c | i j. x \<le> i \<and> i < x + w \<and> 0 \<le> i \<and> i < width s
                            \<and> y \<le> j \<and> j < y + h \<and> 0 \<le> j \<and> j < height s}"
  proof (cases "w < 1 \<or> h < 1 \<or> x + w \<le> 0 \<or> y + h \<le> 0 \<or> y \<ge> height s \<or> x \<ge> width s")
    case True
    then have "{DrawPixel i j c | i j. x \<le> i \<and> i < x + w \<and> 0 \<le> i \<and> i < width s
                            \<and> y \<le> j \<and> j < y + h \<and> 0 \<le> j \<and> j < height s} = {}"
      by auto
    with True show ?thesis unfolding eq by simp
  next
    case False
    have "set ?rows = {DrawPixel i j c | i j. ?x0 \<le> i \<and> i < ?x0 + int ?n
         \<and> ?y0 \<le> j \<and> j < ?y0 + int ?m}"
      by (rule set_rows)
    also have "\<dots> = {DrawPixel i j c | i j. x \<le> i \<and> i < x + w \<and> 0 \<le> i \<and> i < width s
                            \<and> y \<le> j \<and> j < y + h \<and> 0 \<le> j \<and> j < height s}"
    proof -
      have "\<And>i. (?x0 \<le> i \<and> i < ?x0 + int ?n) = (x \<le> i \<and> i < x + w \<and> 0 \<le> i \<and> i < width s)"
        by auto
      moreover
      have "\<And>j. (?y0 \<le> j \<and> j < ?y0 + int ?m) = (y \<le> j \<and> j < y + h \<and> 0 \<le> j \<and> j < height s)"
        by auto
      ultimately show ?thesis by auto
    qed
    finally show ?thesis using False unfolding eq by simp
  qed
qed

lemma hline_vline_fill_rect:
  "hline s x y w c = Inr (epd_fill_rect s x y w 1 c)"
  "vline s x y h c = Inr (epd_fill_rect s x y 1 h c)"
  by (simp_all add: hline_def vline_def)

text \<open>
  C8. The claim is that fill, fill_rect, pixel, hline, vline and rect of the base class clip
  the rectangle and call \<^verbatim>\<open>draw_pixel(x, y, color)\<close> once per covered coordinate. The code
  does so for fill_rect, hline and vline (above). In fill, pixel and rect the call passes
  \<^verbatim>\<open>self\<close> as an extra first argument, so the call raises \<^verbatim>\<open>TypeError\<close>: on the 8 by 8 panel
  fill(BLACK), pixel(3, 5, BLACK) and rect(1, 1, 3, 3, BLACK) all end in that exception.
\<close>

theorem epd_drawing_raises:
  "epd_fill panel8 BLACK = Inl TypeError
   \<and> epd_pixel panel8 3 5 BLACK = Inl TypeError
   \<and> rect panel8 1 1 3 3 BLACK = Inl TypeError"
  by (simp add: epd_fill_def epd_pixel_def rect_def panel8_def)

section \<open>The bus lock and commands\<close>

lemma spin_lock_free:
  "\<not> spi_locked s \<Longrightarrow> spin_lock s = Some (emit Lock (s\<lparr>spi_locked := True\<rparr>))"
  by (subst spin_lock.simps) (simp add: try_lock_def)

lemma spin_lock_Some_free: "spin_lock s = Some s' \<Longrightarrow> \<not> spi_locked s"
proof (induction rule: spin_lock.raw_induct[rotated 1, consumes 1])
  case (1 spin s s')
  then show ?case by (auto simp: try_lock_def split: if_splits)
qed

lemma spin_lock_held: "spi_locked s \<Longrightarrow> spin_lock s = None"
  using spin_lock_Some_free [of s] by (cases "spin_lock s") auto

lemma spin_lock_eq:
  "spin_lock s = (if spi_locked s then None else Some (emit Lock (s\<lparr>spi_locked := True\<rparr>)))"
  by (simp add: spin_lock_free spin_lock_held)

lemma wait_ready_later: "line (n + k) \<Longrightarrow> \<exists>m. wait_ready line n = Some m"
proof (induction k arbitrary: n)
  case 0
  then show ?case by (subst wait_ready.simps) simp
next
  case (Suc k)
  then have "\<exists>m. wait_ready line (Suc n) = Some m" by simp
  then show ?case by (subst wait_ready.simps) simp
qed

lemma epd_command_eq:
  "epd_command s cmd data e =
     (if spi_locked s then None
      else case to_byte cmd of
             Inl err \<Rightarrow> Some (Inl err)
           | Inr c \<Rightarrow> Some (Inr (miso s (rx s), after_command s c data e)))"
  by (cases data; cases e)
     (simp_all add: epd_command_def bind_run_def run_loop_def spin_lock_eq set_cs_def set_dc_def
       emit_def write_readinto_def epd_data_def unlock_def spi_write_def after_command_def
       split: sum.splits)

text \<open>
  C7. The claim is that every command exchange takes the bus lock, holds it throughout and
  releases it exactly once. With a data payload the code releases it twice: \<^verbatim>\<open>data\<close> ends
  with \<^verbatim>\<open>unlock\<close> and \<^verbatim>\<open>command\<close> calls \<^verbatim>\<open>unlock\<close> again after \<^verbatim>\<open>data\<close> returns. The events of
  \<^verbatim>\<open>command(0x00, bytearray([0xCF]))\<close> on the 8 by 8 panel hold one \<open>Lock\<close> and two \<open>Unlock\<close>.
\<close>

theorem epd_command_data_unlocks_twice:
  "map_option (map_sum id (\<lambda>(r, s'). since panel8 s'))
     (epd_command panel8 IL0373_PANEL_SETTING (Some [0xCF]) True) =
   Some (Inr [SetCS True, SetDC False, SetCS False, Lock, WriteReadinto 0x00 0x00,
              SetDC True, Write [0xCF], SetCS True, Unlock, Unlock])"
  by (simp add: epd_command_eq to_byte_def IL0373_PANEL_SETTING_def after_command_def since_def
      panel8_def)

section \<open>The store-backed transfer passes\<close>

lemma xfer_loop_eq:
  "snd (xfer_loop n x s) =
     s\<lparr>rx := rx s + n, trace := trace s @ xfer_events (miso s) (rx s) n x\<rparr>"
proof (induction n arbitrary: x s)
  case 0
  then show ?case by simp
next
  case (Suc n)
  then show ?case by (simp add: write_readinto_def emit_def)
qed

lemma commands_xfer_events:
  "controller_commands c True (xfer_events f k n x @ es) = controller_commands c True es"
  by (induction n arbitrary: k x) simp_all

lemma exchanges_xfer_events:
  "exchanges (xfer_events f k n x @ es) = zip (x # map f [k..<k + n]) (map f [k..<k + n]) @ exchanges es"
proof (induction n arbitrary: k x)
  case 0
  then show ?case by simp
next
  case (Suc n)
  have "[k..<k + Suc n] = k # [Suc k..<Suc k + n]" by (simp add: upt_conv_Cons)
  with Suc show ?case by simp
qed

lemma display_sram_dtm1_eq:
  "display_sram_dtm1 st s = (if spi_locked s then None else Some (Inr (after_dtm1 st s)))"
  by (simp add: display_sram_dtm1_def bind_run_def run_loop_def spin_lock_eq epd_command_eq
      after_command_def to_byte_def IL0373_DTM1_def set_srcs_def set_cs_def set_dc_def emit_def
      unlock_def spi_write_def after_dtm1_def split_beta xfer_loop_eq option.map_comp comp_def)

lemma display_sram_dtm2_eq:
  "display_sram_dtm2 st s =
     (case bytearray [drop_bit 8 (bw_bufsize s), bw_bufsize s AND 0xFF] of
        Inl err \<Rightarrow> Some (Inl err)
      | Inr start \<Rightarrow> Some (Inr (after_dtm2 st start s)))"
  by (simp add: display_sram_dtm2_def bind_run_def run_loop_def spin_lock_eq epd_command_eq
      after_command_def to_byte_def IL0373_DTM2_def set_srcs_def set_cs_def set_dc_def emit_def
      unlock_def spi_write_def after_dtm2_def split_beta xfer_loop_eq option.map_comp comp_def
      split: sum.splits)

lemma since_after_dtm1: "since s (after_dtm1 st s) =
         [Lock, SetSRCS False, Write [SRAM_READ st], Write [0x00, 0x00], Unlock,
          SetCS True, SetDC False, SetCS False, Lock, WriteReadinto 0x10 (miso s (rx s)), Unlock,
          Lock, SetDC True]
         @ xfer_events (miso s) (Suc (rx s)) (nat (bw_bufsize s)) (miso s (rx s))
         @ [SetCS True, SetSRCS True]"
  by (simp add: since_def after_dtm1_def)

lemma since_after_dtm2: "since s (after_dtm2 st start s) =
         [SetSRCS False, Write [SRAM_READ st], Write start, Unlock,
          SetCS True, SetDC False, SetCS False, Lock, WriteReadinto 0x13 (miso s (rx s)), Unlock,
          Lock, SetDC True]
         @ xfer_events (miso s) (Suc (rx s)) (nat (bw_bufsize s)) (miso s (rx s))
         @ [SetCS True, SetSRCS True, Unlock]"
  by (simp add: since_def after_dtm2_def)

lemma exchanges_after_dtm1:
  "exchanges (since s (after_dtm1 st s)) =
     zip (0x10 # map (miso s) [rx s..<rx s + Suc (nat (bw_bufsize s))])
         (map (miso s) [rx s..<rx s + Suc (nat (bw_bufsize s))])"
proof -
  have "[rx s..<rx s + Suc (nat (bw_bufsize s))] = rx s # [Suc (rx s)..<Suc (rx s) + nat (bw_bufsize s)]"
    by (simp add: upt_conv_Cons)
  then show ?thesis
    by (simp add: since_after_dtm1 exchanges_xfer_events)
qed

lemma exchanges_after_dtm2:
  "exchanges (since s (after_dtm2 st start s)) =
     zip (0x13 # map (miso s) [rx s..<rx s + Suc (nat (bw_bufsize s))])
         (map (miso s) [rx s..<rx s + Suc (nat (bw_bufsize s))])"
proof -
  have "[rx s..<rx s + Suc (nat (bw_bufsize s))] = rx s # [Suc (rx s)..<Suc (rx s) + nat (bw_bufsize s)]"
    by (simp add: upt_conv_Cons)
  then show ?thesis
    by (simp add: since_after_dtm2 exchanges_xfer_events)
qed

lemma and_FF_mod: "(n::int) AND 0xFF = n mod 256"
proof -
  have "n AND mask 8 = take_bit 8 n" by (simp add: take_bit_eq_mask)
  moreover have "mask 8 = (0xFF::int)" by (simp add: mask_eq_exp_minus_1)
  ultimately show ?thesis by (simp add: take_bit_eq_mod)
qed

lemma to_byte_and_FF: "to_byte (n AND 0xFF) = Inr (word_of_int (n AND 0xFF))"
  unfolding and_FF_mod by (simp add: to_byte_def)

lemma bytearray_start:
  assumes "0 \<le> n" and "n < 65536"
  shows "bytearray [drop_bit 8 n, n AND 0xFF] =
           Inr [word_of_int (drop_bit 8 n), word_of_int (n AND 0xFF)]"
proof -
  have "0 \<le> n div 256" "n div 256 < 256" using assms by simp_all
  then have "to_byte (drop_bit 8 n) = Inr (word_of_int (drop_bit 8 n))"
    by (simp add: to_byte_def drop_bit_eq_div)
  then show ?thesis by (simp add: to_byte_and_FF)
qed

lemma sram_pass_exchanges:
  assumes "sram s = Some st0"
  shows "display_sram_dtm1 st s = Some (Inr s1) \<Longrightarrow>
            exchanges (since s s1) =
              zip (0x10 # map (miso s) [rx s..<rx s + Suc (nat (bw_bufsize s))])
                  (map (miso s) [rx s..<rx s + Suc (nat (bw_bufsize s))])
            \<and> cs s1 \<and> map_option cs_pin (sram s1) = Some True"
    and "display_sram_dtm2 st s = Some (Inr s2) \<Longrightarrow>
            exchanges (since s s2) =
              zip (0x13 # map (miso s) [rx s..<rx s + Suc (nat (bw_bufsize s))])
                  (map (miso s) [rx s..<rx s + Suc (nat (bw_bufsize s))])
            \<and> cs s2 \<and> map_option cs_pin (sram s2) = Some True"
proof -
  assume "display_sram_dtm1 st s = Some (Inr s1)"
  then have s1: "s1 = after_dtm1 st s"
    by (simp add: display_sram_dtm1_eq split: if_splits)
  show "exchanges (since s s1) =
              zip (0x10 # map (miso s) [rx s..<rx s + Suc (nat (bw_bufsize s))])
                  (map (miso s) [rx s..<rx s + Suc (nat (bw_bufsize s))])
            \<and> cs s1 \<and> map_option cs_pin (sram s1) = Some True"
    unfolding s1 using assms
    by (intro conjI) (simp_all only: exchanges_after_dtm1, simp_all add: after_dtm1_def)
next
  assume "display_sram_dtm2 st s = Some (Inr s2)"
  then obtain start where s2: "s2 = after_dtm2 st start s"
    by (auto simp add: display_sram_dtm2_eq split: sum.splits)
  show "exchanges (since s s2) =
              zip (0x13 # map (miso s) [rx s..<rx s + Suc (nat (bw_bufsize s))])
                  (map (miso s) [rx s..<rx s + Suc (nat (bw_bufsize s))])
            \<and> cs s2 \<and> map_option cs_pin (sram s2) = Some True"
    unfolding s2 using assms
    by (intro conjI) (simp_all only: exchanges_after_dtm2, simp_all add: after_dtm2_def)
qed

section \<open>The order of the controller commands\<close>

lemma issued_final:
  "issued s s' cmds \<Longrightarrow> controller_commands (cs s) (dc s) (since s s') = cmds"
  unfolding issued_def since_def
proof (elim exE conjE)
  fix evs
  assume t: "trace s' = trace s @ evs"
    and c: "\<forall>es. controller_commands (cs s) (dc s) (evs @ es) =
                 cmds @ controller_commands (cs s') (dc s') es"
  from c have "controller_commands (cs s) (dc s) (evs @ []) = cmds @ controller_commands (cs s') (dc s') []"
    by (rule spec)
  with t show "controller_commands (cs s) (dc s) (drop (length (trace s)) (trace s')) = cmds"
    by simp
qed

lemma issued_trans:
  assumes "issued s s' a" and "issued s' s'' b"
  shows "issued s s'' (a @ b)"
proof -
  from assms(1) obtain e1 where 1: "trace s' = trace s @ e1"
    "\<And>es. controller_commands (cs s) (dc s) (e1 @ es) = a @ controller_commands (cs s') (dc s') es"
    unfolding issued_def by blast
  from assms(2) obtain e2 where 2: "trace s'' = trace s' @ e2"
    "\<And>es. controller_commands (cs s') (dc s') (e2 @ es) = b @ controller_commands (cs s'') (dc s'') es"
    unfolding issued_def by blast
  have "trace s'' = trace s @ (e1 @ e2)" using 1(1) 2(1) by simp
  moreover have "\<And>es. controller_commands (cs s) (dc s) ((e1 @ e2) @ es) =
      (a @ b) @ controller_commands (cs s'') (dc s'') es"
    using 1(2) 2(2) by simp
  ultimately show ?thesis unfolding issued_def by blast
qed

lemma issued_after_command: "issued s (after_command s c data e) [c]"
  by (cases data; cases e) (simp_all add: issued_def after_command_def)

lemma issued_sleep: "issued s (sleep ms s) []"
  by (simp add: issued_def sleep_def emit_def)

lemma issued_busy_wait: "busy_wait ms s = Some s' \<Longrightarrow> issued s s' []"
  by (auto simp add: busy_wait_def issued_def sleep_def emit_def split: option.splits)

lemma issued_after_dtm1: "cs s \<Longrightarrow> issued s (after_dtm1 st s) [0x10]"
  by (simp add: issued_def after_dtm1_def commands_xfer_events)

lemma issued_after_dtm2: "cs s \<Longrightarrow> issued s (after_dtm2 st start s) [0x13]"
  by (simp add: issued_def after_dtm2_def commands_xfer_events)

lemma issued_after_buffer: "issued s (after_buffer c buf s) [c]"
  by (simp add: issued_def after_buffer_def)

lemma issued_after_power_up: "issued s (after_power_up s) [0x00, 0x50, 0x30, 0x61, 0x82]"
proof -
  note ic = issued_after_command
  from issued_trans [OF issued_trans [OF issued_trans [OF issued_trans [OF issued_trans
        [OF issued_sleep ic] ic] ic] ic] ic]
  show ?thesis unfolding after_power_up_def by simp
qed

lemma issued_after_update: "issued s (after_update s) [0x50, 0x82, 0x02]"
proof -
  note ic = issued_after_command
  from issued_trans [OF issued_trans [OF issued_trans [OF ic ic] ic] issued_sleep]
  show ?thesis unfolding after_update_def by simp
qed

lemma after_command_fields:
  "spi_locked (after_command s c data e) = False"
  "cs (after_command s c data e) = (data \<noteq> None \<or> e)"
  "width (after_command s c data e) = width s"
  "height (after_command s c data e) = height s"
  "bw_bufsize (after_command s c data e) = bw_bufsize s"
  "busy (after_command s c data e) = busy s"
  "sram (after_command s c data e) = sram s"
  "bw_buffer (after_command s c data e) = bw_buffer s"
  "red_buffer (after_command s c data e) = red_buffer s"
  by (simp_all add: after_command_def)

lemma sleep_fields:
  "spi_locked (sleep ms s) = spi_locked s"
  "cs (sleep ms s) = cs s"
  "width (sleep ms s) = width s"
  "height (sleep ms s) = height s"
  "bw_bufsize (sleep ms s) = bw_bufsize s"
  "busy (sleep ms s) = busy s"
  "sram (sleep ms s) = sram s"
  "bw_buffer (sleep ms s) = bw_buffer s"
  "red_buffer (sleep ms s) = red_buffer s"
  by (simp_all add: sleep_def emit_def)

lemma busy_wait_fields:
  assumes "busy_wait ms s = Some s'"
  shows "spi_locked s' = spi_locked s" "cs s' = cs s" "width s' = width s" "height s' = height s"
    "bw_bufsize s' = bw_bufsize s" "busy s' = busy s" "sram s' = sram s"
    "bw_buffer s' = bw_buffer s" "red_buffer s' = red_buffer s"
  using assms by (auto simp add: busy_wait_def sleep_def emit_def split: option.splits)

lemma after_power_up_fields:
  "spi_locked (after_power_up s) = False"
  "cs (after_power_up s) = True"
  "bw_bufsize (after_power_up s) = bw_bufsize s"
  "busy (after_power_up s) = busy s"
  "sram (after_power_up s) = sram s"
  "bw_buffer (after_power_up s) = bw_buffer s"
  "red_buffer (after_power_up s) = red_buffer s"
  by (simp_all add: after_power_up_def after_command_fields sleep_fields)

lemma after_dtm1_fields:
  "cs (after_dtm1 st s) = True"
  "bw_bufsize (after_dtm1 st s) = bw_bufsize s"
  "busy (after_dtm1 st s) = busy s"
  by (simp_all add: after_dtm1_def)

lemma after_dtm2_fields:
  "spi_locked (after_dtm2 st start s) = False"
  "busy (after_dtm2 st start s) = busy s"
  by (simp_all add: after_dtm2_def)

lemma after_buffer_fields:
  "spi_locked (after_buffer c buf s) = False"
  "busy (after_buffer c buf s) = busy s"
  "red_buffer (after_buffer c buf s) = red_buffer s"
  by (simp_all add: after_buffer_def)

lemma bytearray_resolution:
  "bytearray [height s AND 0xFF, drop_bit 8 (height s) AND 0xFF,
              width s AND 0xFF, drop_bit 8 (width s) AND 0xFF] = Inr (resolution s)"
  by (simp add: to_byte_and_FF resolution_def)

lemma power_up_eq:
  "power_up s =
     (if spi_locked s then None
      else case busy_wait 3000 (after_command s 0x04 None True) of
             None \<Rightarrow> None
           | Some s1 \<Rightarrow> Some (Inr (after_power_up s1)))"
proof (cases "spi_locked s")
  case True
  then show ?thesis by (simp add: power_up_def epd_command_eq bind_run_def)
next
  case False
  show ?thesis
  proof (cases "busy_wait 3000 (after_command s 0x04 None True)")
    case None
    with False show ?thesis
      by (simp add: power_up_def epd_command_eq bind_run_def run_loop_def to_byte_def
          IL0373_POWER_ON_def)
  next
    case (Some s1)
    have res: "resolution (after_command (after_command (after_command (sleep 200 s1) 0x00 (Some [0xCF]) True)
             0x50 (Some [0x37]) True) 0x30 (Some [0x29]) True) = resolution s1"
      by (simp add: resolution_def after_command_fields sleep_fields)
    from False Some show ?thesis
      by (simp add: power_up_def epd_command_eq bind_run_def run_loop_def to_byte_def
          IL0373_POWER_ON_def IL0373_PANEL_SETTING_def IL0373_CDI_def IL0373_PLL_def
          IL0373_RESOLUTION_def IL0373_VCM_DC_SETTING_def
          busy_wait_fields [OF Some] after_command_fields sleep_fields
          bytearray_resolution res after_power_up_def del: bytearray.simps)
  qed
qed

lemma update_eq:
  "update s =
     (if spi_locked s then None
      else case busy_wait 15000 (after_command s 0x12 None True) of
             None \<Rightarrow> None
           | Some s1 \<Rightarrow> Some (Inr (after_update s1)))"
proof (cases "spi_locked s")
  case True
  then show ?thesis by (simp add: update_def epd_command_eq bind_run_def)
next
  case False
  show ?thesis
  proof (cases "busy_wait 15000 (after_command s 0x12 None True)")
    case None
    with False show ?thesis
      by (simp add: update_def epd_command_eq bind_run_def run_loop_def to_byte_def
          IL0373_DISPLAY_REFRESH_def)
  next
    case (Some s1)
    from False Some show ?thesis
      by (simp add: update_def epd_command_eq bind_run_def run_loop_def to_byte_def
          IL0373_DISPLAY_REFRESH_def IL0373_CDI_def IL0373_VCM_DC_SETTING_def IL0373_POWER_OFF_def
          busy_wait_fields [OF Some] after_command_fields sleep_fields after_update_def)
  qed
qed

lemma display_buffer_eq:
  assumes "to_byte dtm = Inr c"
  shows "display_buffer dtm buffer s =
     (if spi_locked s then None
      else case buffer of
             None \<Rightarrow> Some (Inl AttributeError)
           | Some buf \<Rightarrow> Some (Inr (after_buffer c buf s)))"
  using assms
  by (simp add: display_buffer_def epd_command_eq bind_run_def run_loop_def spin_lock_eq
      after_command_def after_buffer_def unlock_def set_cs_def set_dc_def spi_write_def emit_def
      split: option.splits)

lemma bind_run_Inr:
  assumes "bind_run m f = Some (Inr b)"
  obtains a where "m = Some (Inr a)" and "f a = Some (Inr b)"
  using assms by (auto simp add: bind_run_def split: option.splits sum.splits)

lemma busy_wait_returns:
  assumes "\<forall>line. busy s = Some line \<longrightarrow> (\<forall>n. \<exists>k. line (n + k))"
  shows "\<exists>s'. busy_wait ms s = Some s'"
proof (cases "busy s")
  case None
  then show ?thesis by (simp add: busy_wait_def)
next
  case (Some line)
  with assms obtain k where "line (polls s + k)" by blast
  then obtain m where "wait_ready line (polls s) = Some m"
    using wait_ready_later by blast
  with Some show ?thesis by (simp add: busy_wait_def)
qed

lemma power_up_post:
  assumes "power_up s = Some (Inr s')"
  shows "issued s s' [0x04, 0x00, 0x50, 0x30, 0x61, 0x82]" and "cs s'"
proof -
  from assms obtain s1 where w: "busy_wait 3000 (after_command s 0x04 None True) = Some s1"
    and s': "s' = after_power_up s1"
    by (auto simp add: power_up_eq split: if_splits option.splits)
  from issued_trans [OF issued_trans [OF issued_after_command issued_busy_wait [OF w]]
      issued_after_power_up]
  show "issued s s' [0x04, 0x00, 0x50, 0x30, 0x61, 0x82]" unfolding s' by simp
  show "cs s'" unfolding s' by (simp add: after_power_up_fields)
qed

lemma update_post:
  assumes "update s = Some (Inr s')"
  shows "issued s s' [0x12, 0x50, 0x82, 0x02]"
proof -
  from assms obtain s1 where w: "busy_wait 15000 (after_command s 0x12 None True) = Some s1"
    and s': "s' = after_update s1"
    by (auto simp add: update_eq split: if_splits option.splits)
  from issued_trans [OF issued_trans [OF issued_after_command issued_busy_wait [OF w]]
      issued_after_update]
  show ?thesis unfolding s' by simp
qed

lemma sram_passes_post:
  assumes "cs s"
    and "bind_run (display_sram_dtm1 st s) (\<lambda>s. display_sram_dtm2 st (sleep 2 s)) = Some (Inr s')"
  shows "issued s s' [0x10, 0x13]"
proof -
  from assms(2) obtain s1 where 1: "display_sram_dtm1 st s = Some (Inr s1)"
    and 2: "display_sram_dtm2 st (sleep 2 s1) = Some (Inr s')"
    by (rule bind_run_Inr)
  from 1 have s1: "s1 = after_dtm1 st s"
    by (simp add: display_sram_dtm1_eq split: if_splits)
  from 2 obtain start where s': "s' = after_dtm2 st start (sleep 2 s1)"
    by (auto simp add: display_sram_dtm2_eq split: sum.splits)
  have a: "issued s s1 [0x10]" unfolding s1 by (rule issued_after_dtm1 [OF assms(1)])
  have b: "issued s1 (sleep 2 s1) []" by (rule issued_sleep)
  have "cs (sleep 2 s1)" by (simp add: s1 sleep_fields after_dtm1_fields)
  then have c: "issued (sleep 2 s1) s' [0x13]" unfolding s' by (rule issued_after_dtm2)
  from issued_trans [OF issued_trans [OF a b] c] show ?thesis by simp
qed

lemma to_byte_dtm: "to_byte IL0373_DTM1 = Inr 0x10" "to_byte IL0373_DTM2 = Inr 0x13"
  by (simp_all add: to_byte_def IL0373_DTM1_def IL0373_DTM2_def)

lemma buffer_passes_post:
  assumes "bind_run (display_buffer IL0373_DTM1 (bw_buffer s) s)
             (\<lambda>s. display_buffer IL0373_DTM2 (red_buffer s) (sleep 20 s)) = Some (Inr s')"
  shows "issued s s' [0x10, 0x13]"
proof -
  from assms obtain s1 where 1: "display_buffer IL0373_DTM1 (bw_buffer s) s = Some (Inr s1)"
    and 2: "display_buffer IL0373_DTM2 (red_buffer s1) (sleep 20 s1) = Some (Inr s')"
    by (rule bind_run_Inr)
  from 1 obtain b1 where s1: "s1 = after_buffer 0x10 b1 s"
    by (auto simp add: display_buffer_eq [OF to_byte_dtm(1)] split: if_splits option.splits)
  from 2 obtain b2 where s': "s' = after_buffer 0x13 b2 (sleep 20 s1)"
    by (auto simp add: display_buffer_eq [OF to_byte_dtm(2)] split: if_splits option.splits)
  have a: "issued s s1 [0x10]" unfolding s1 by (rule issued_after_buffer)
  have b: "issued s1 (sleep 20 s1) []" by (rule issued_sleep)
  have c: "issued (sleep 20 s1) s' [0x13]" unfolding s' by (rule issued_after_buffer)
  from issued_trans [OF issued_trans [OF a b] c] show ?thesis by simp
qed

lemma display_post:
  assumes "display s = Some (Inr s')"
  shows "issued s s' [0x04, 0x00, 0x50, 0x30, 0x61, 0x82, 0x10, 0x13, 0x12, 0x50, 0x82, 0x02]"
proof -
  from assms obtain sp where p: "power_up s = Some (Inr sp)"
    and rest: "bind_run
       (case sram sp of
          Some st \<Rightarrow>
            bind_run (display_sram_dtm1 st sp) (\<lambda>s. display_sram_dtm2 st (sleep 2 s))
        | None \<Rightarrow>
            bind_run (display_buffer IL0373_DTM1 (bw_buffer sp) sp) (\<lambda>s.
              display_buffer IL0373_DTM2 (red_buffer s) (sleep 20 s)))
       update = Some (Inr s')"
    unfolding display_def by (rule bind_run_Inr)
  from rest obtain sm where m: "(case sram sp of
          Some st \<Rightarrow>
            bind_run (display_sram_dtm1 st sp) (\<lambda>s. display_sram_dtm2 st (sleep 2 s))
        | None \<Rightarrow>
            bind_run (display_buffer IL0373_DTM1 (bw_buffer sp) sp) (\<lambda>s.
              display_buffer IL0373_DTM2 (red_buffer s) (sleep 20 s))) = Some (Inr sm)"
    and u: "update sm = Some (Inr s')"
    by (rule bind_run_Inr)
  have "issued sp sm [0x10, 0x13]"
  proof (cases "sram sp")
    case None
    with m show ?thesis by (simp add: buffer_passes_post)
  next
    case (Some st)
    with m power_up_post(2) [OF p] show ?thesis by (simp add: sram_passes_post)
  qed
  from issued_trans [OF issued_trans [OF power_up_post(1) [OF p] this] update_post [OF u]]
  show ?thesis by simp
qed

lemma power_up_returns:
  assumes "\<not> spi_locked s" and "\<forall>line. busy s = Some line \<longrightarrow> (\<forall>n. \<exists>k. line (n + k))"
  shows "\<exists>s1. power_up s = Some (Inr (after_power_up s1)) \<and> busy s1 = busy s \<and> sram s1 = sram s
           \<and> bw_bufsize s1 = bw_bufsize s \<and> bw_buffer s1 = bw_buffer s \<and> red_buffer s1 = red_buffer s"
proof -
  have "\<forall>line. busy (after_command s 0x04 None True) = Some line \<longrightarrow> (\<forall>n. \<exists>k. line (n + k))"
    using assms(2) by (simp add: after_command_fields)
  then obtain s1 where w: "busy_wait 3000 (after_command s 0x04 None True) = Some s1"
    using busy_wait_returns by blast
  with assms(1) have "power_up s = Some (Inr (after_power_up s1))" by (simp add: power_up_eq)
  moreover from busy_wait_fields [OF w] have "busy s1 = busy s" "sram s1 = sram s"
    "bw_bufsize s1 = bw_bufsize s" "bw_buffer s1 = bw_buffer s" "red_buffer s1 = red_buffer s"
    by (simp_all add: after_command_fields)
  ultimately show ?thesis by blast
qed

lemma update_returns:
  assumes "\<not> spi_locked s" and "\<forall>line. busy s = Some line \<longrightarrow> (\<forall>n. \<exists>k. line (n + k))"
  shows "\<exists>s'. update s = Some (Inr s')"
proof -
  have "\<forall>line. busy (after_command s 0x12 None True) = Some line \<longrightarrow> (\<forall>n. \<exists>k. line (n + k))"
    using assms(2) by (simp add: after_command_fields)
  then obtain s1 where w: "busy_wait 15000 (after_command s 0x12 None True) = Some s1"
    using busy_wait_returns by blast
  with assms(1) show ?thesis by (simp add: update_eq)
qed

lemma display_returns:
  assumes "\<not> spi_locked s"
    and live: "\<forall>line. busy s = Some line \<longrightarrow> (\<forall>n. \<exists>k. line (n + k))"
    and size: "sram s \<noteq> None \<longrightarrow> 0 \<le> bw_bufsize s \<and> bw_bufsize s < 65536"
    and bufs: "sram s = None \<longrightarrow> bw_buffer s \<noteq> None \<and> red_buffer s \<noteq> None"
  shows "\<exists>s'. display s = Some (Inr s')"
proof -
  from power_up_returns [OF assms(1) live] obtain s1 where
    p: "power_up s = Some (Inr (after_power_up s1))" and f: "busy s1 = busy s" "sram s1 = sram s"
      "bw_bufsize s1 = bw_bufsize s" "bw_buffer s1 = bw_buffer s" "red_buffer s1 = red_buffer s"
    by blast
  define sp where "sp = after_power_up s1"
  have sp: "\<not> spi_locked sp" "busy sp = busy s" "sram sp = sram s" "bw_bufsize sp = bw_bufsize s"
    "bw_buffer sp = bw_buffer s" "red_buffer sp = red_buffer s"
    by (simp_all add: sp_def after_power_up_fields f)
  have "\<exists>sm. (case sram sp of
          Some st \<Rightarrow>
            bind_run (display_sram_dtm1 st sp) (\<lambda>s. display_sram_dtm2 st (sleep 2 s))
        | None \<Rightarrow>
            bind_run (display_buffer IL0373_DTM1 (bw_buffer sp) sp) (\<lambda>s.
              display_buffer IL0373_DTM2 (red_buffer s) (sleep 20 s))) = Some (Inr sm)
        \<and> \<not> spi_locked sm \<and> busy sm = busy s"
  proof (cases "sram s")
    case None
    with bufs obtain b1 b2 where b: "bw_buffer s = Some b1" "red_buffer s = Some b2" by auto
    with None sp show ?thesis
      by (simp add: bind_run_def display_buffer_eq [OF to_byte_dtm(1)]
          display_buffer_eq [OF to_byte_dtm(2)] after_buffer_fields sleep_fields)
  next
    case (Some st)
    with size have "0 \<le> bw_bufsize s" "bw_bufsize s < 65536" by simp_all
    then have "bytearray [drop_bit 8 (bw_bufsize s), bw_bufsize s AND 0xFF] =
           Inr [word_of_int (drop_bit 8 (bw_bufsize s)), word_of_int (bw_bufsize s AND 0xFF)]"
      by (rule bytearray_start)
    with Some sp show ?thesis
      by (simp add: bind_run_def display_sram_dtm1_eq display_sram_dtm2_eq sleep_fields
          after_dtm1_fields after_dtm2_fields del: bytearray.simps)
  qed
  then obtain sm where m: "(case sram sp of
          Some st \<Rightarrow>
            bind_run (display_sram_dtm1 st sp) (\<lambda>s. display_sram_dtm2 st (sleep 2 s))
        | None \<Rightarrow>
            bind_run (display_buffer IL0373_DTM1 (bw_buffer sp) sp) (\<lambda>s.
              display_buffer IL0373_DTM2 (red_buffer s) (sleep 20 s))) = Some (Inr sm)"
    and sm: "\<not> spi_locked sm" "busy sm = busy s" by blast
  from update_returns [OF sm(1)] live sm(2) obtain s' where "update sm = Some (Inr s')"
    by auto
  with p m have "display s = Some (Inr s')"
    unfolding sp_def by (simp add: display_def bind_run_def)
  then show ?thesis by blast
qed

text \<open>
  C2. Every call of display that returns has sent the controller exactly the commands
  power-on 0x04, panel-setting 0x00, CDI 0x50, PLL 0x30, resolution 0x61, VCOM-DC 0x82,
  DTM1 0x10, DTM2 0x13, refresh 0x12, CDI 0x50, VCOM-DC 0x82 and power-off 0x02, in this
  order and with no other command byte between them. And display does return when the bus
  lock is free at the call, the busy line (if wired) becomes ready after every moment, the
  start address of the red plane fits two bytes when a store is present, and the two buffer
  attributes exist when no store is present.
\<close>

theorem display_command_order:
  "(\<forall>s'. display s = Some (Inr s') \<longrightarrow>
      controller_commands (cs s) (dc s) (since s s') =
        [0x04, 0x00, 0x50, 0x30, 0x61, 0x82, 0x10, 0x13, 0x12, 0x50, 0x82, 0x02])
   \<and> (\<not> spi_locked s
      \<and> (\<forall>line. busy s = Some line \<longrightarrow> (\<forall>n. \<exists>k. line (n + k)))
      \<and> (sram s \<noteq> None \<longrightarrow> 0 \<le> bw_bufsize s \<and> bw_bufsize s < 65536)
      \<and> (sram s = None \<longrightarrow> bw_buffer s \<noteq> None \<and> red_buffer s \<noteq> None)
      \<longrightarrow> (\<exists>s'. display s = Some (Inr s')))"
proof (intro conjI allI impI)
  fix s'
  assume "display s = Some (Inr s')"
  then have "issued s s' [0x04, 0x00, 0x50, 0x30, 0x61, 0x82, 0x10, 0x13, 0x12, 0x50, 0x82, 0x02]"
    by (rule display_post)
  then show "controller_commands (cs s) (dc s) (since s s') =
        [0x04, 0x00, 0x50, 0x30, 0x61, 0x82, 0x10, 0x13, 0x12, 0x50, 0x82, 0x02]"
    by (rule issued_final)
next
  assume "\<not> spi_locked s
      \<and> (\<forall>line. busy s = Some line \<longrightarrow> (\<forall>n. \<exists>k. line (n + k)))
      \<and> (sram s \<noteq> None \<longrightarrow> 0 \<le> bw_bufsize s \<and> bw_bufsize s < 65536)
      \<and> (sram s = None \<longrightarrow> bw_buffer s \<noteq> None \<and> red_buffer s \<noteq> None)"
  then show "\<exists>s'. display s = Some (Inr s')"
    by (intro display_returns) simp_all
qed

theorem display_command_order_witness:
  "\<not> spi_locked panel8
   \<and> busy panel8 = Some (\<lambda>n. 2 \<le> n)
   \<and> sram panel8 \<noteq> None \<and> 0 \<le> bw_bufsize panel8 \<and> bw_bufsize panel8 < 65536
   \<and> (\<exists>s'. display panel8 = Some (Inr s')
         \<and> controller_commands (cs panel8) (dc panel8) (since panel8 s') =
             [0x04, 0x00, 0x50, 0x30, 0x61, 0x82, 0x10, 0x13, 0x12, 0x50, 0x82, 0x02])"
proof -
  have 1: "\<not> spi_locked panel8" by (simp add: panel8_def)
  have "\<And>n::nat. \<exists>k. 2 \<le> n + k"
  proof -
    fix n :: nat
    have "2 \<le> n + 2" by simp
    then show "\<exists>k. 2 \<le> n + k" ..
  qed
  then have 2: "\<forall>line. busy panel8 = Some line \<longrightarrow> (\<forall>n. \<exists>k. line (n + k))"
    by (simp add: panel8_def)
  have 3: "sram panel8 \<noteq> None \<longrightarrow> 0 \<le> bw_bufsize panel8 \<and> bw_bufsize panel8 < 65536"
    by (simp add: panel8_def)
  have 4: "sram panel8 = None \<longrightarrow> bw_buffer panel8 \<noteq> None \<and> red_buffer panel8 \<noteq> None"
    by (simp add: panel8_def)
  have 5: "busy panel8 = Some (\<lambda>n. 2 \<le> n)" "sram panel8 \<noteq> None"
    "0 \<le> bw_bufsize panel8" "bw_bufsize panel8 < 65536"
    by (simp_all add: panel8_def)
  from display_command_order [of panel8] 1 2 3 4 have
    "\<exists>s'. display panel8 = Some (Inr s')
         \<and> controller_commands (cs panel8) (dc panel8) (since panel8 s') =
             [0x04, 0x00, 0x50, 0x30, 0x61, 0x82, 0x10, 0x13, 0x12, 0x50, 0x82, 0x02]"
    by blast
  with 1 5 show ?thesis by blast
qed

section \<open>The transfer passes inside display\<close>

lemma power_up_frame:
  assumes "power_up s = Some (Inr s')"
  shows "sram s' = sram s" and "bw_bufsize s' = bw_bufsize s"
proof -
  from assms obtain s1 where w: "busy_wait 3000 (after_command s 0x04 None True) = Some s1"
    and s': "s' = after_power_up s1"
    by (auto simp add: power_up_eq split: if_splits option.splits)
  show "sram s' = sram s" and "bw_bufsize s' = bw_bufsize s"
    unfolding s' by (simp_all add: after_power_up_fields busy_wait_fields [OF w] after_command_fields)
qed

text \<open>
  Inside a call of display that returns, with a store present: the call is power_up, the
  first pass, the sleep, the second pass and update, one after the other; each pass makes
  the exchange of its command byte and then \<open>bw_bufsize\<close> exchanges, the second pass too,
  and ends with both chip-selects high.
\<close>

lemma display_sram_run:
  assumes "display s = Some (Inr s')" and "sram s = Some st"
  shows "\<exists>sp s1 s2.
           power_up s = Some (Inr sp)
         \<and> display_sram_dtm1 st sp = Some (Inr s1)
         \<and> display_sram_dtm2 st (sleep 2 s1) = Some (Inr s2)
         \<and> update s2 = Some (Inr s')
         \<and> length (exchanges (since sp s1)) = Suc (nat (bw_bufsize s))
         \<and> exchanges (since sp s1) =
              zip (0x10 # map (miso sp) [rx sp..<rx sp + Suc (nat (bw_bufsize s))])
                  (map (miso sp) [rx sp..<rx sp + Suc (nat (bw_bufsize s))])
         \<and> cs s1 \<and> map_option cs_pin (sram s1) = Some True
         \<and> length (exchanges (since (sleep 2 s1) s2)) = Suc (nat (bw_bufsize s))
         \<and> exchanges (since (sleep 2 s1) s2) =
              zip (0x13 # map (miso s1) [rx s1..<rx s1 + Suc (nat (bw_bufsize s))])
                  (map (miso s1) [rx s1..<rx s1 + Suc (nat (bw_bufsize s))])
         \<and> cs s2 \<and> map_option cs_pin (sram s2) = Some True"
proof -
  from assms(1) obtain sp where p: "power_up s = Some (Inr sp)"
    and rest: "bind_run
       (case sram sp of
          Some st \<Rightarrow>
            bind_run (display_sram_dtm1 st sp) (\<lambda>s. display_sram_dtm2 st (sleep 2 s))
        | None \<Rightarrow>
            bind_run (display_buffer IL0373_DTM1 (bw_buffer sp) sp) (\<lambda>s.
              display_buffer IL0373_DTM2 (red_buffer s) (sleep 20 s)))
       update = Some (Inr s')"
    unfolding display_def by (rule bind_run_Inr)
  from power_up_frame [OF p] assms(2) have sp: "sram sp = Some st" "bw_bufsize sp = bw_bufsize s"
    by simp_all
  from rest obtain s2 where m: "bind_run (display_sram_dtm1 st sp)
        (\<lambda>s. display_sram_dtm2 st (sleep 2 s)) = Some (Inr s2)"
    and u: "update s2 = Some (Inr s')"
    unfolding sp(1) by (auto elim: bind_run_Inr)
  from m obtain s1 where 1: "display_sram_dtm1 st sp = Some (Inr s1)"
    and 2: "display_sram_dtm2 st (sleep 2 s1) = Some (Inr s2)"
    by (rule bind_run_Inr)
  from 1 have s1: "s1 = after_dtm1 st sp"
    by (simp add: display_sram_dtm1_eq split: if_splits)
  have f1: "sram (sleep 2 s1) = Some (st\<lparr>cs_pin := True\<rparr>)"
    "bw_bufsize (sleep 2 s1) = bw_bufsize s" "miso (sleep 2 s1) = miso s1" "rx (sleep 2 s1) = rx s1"
    unfolding s1 using sp by (simp_all add: sleep_def emit_def after_dtm1_def)
  note a = sram_pass_exchanges(1) [OF sp(1) 1, unfolded sp(2)]
  note b = sram_pass_exchanges(2) [OF f1(1) 2, unfolded f1(2,3,4)]
  from a have la: "length (exchanges (since sp s1)) = Suc (nat (bw_bufsize s))" by simp
  from b have lb: "length (exchanges (since (sleep 2 s1) s2)) = Suc (nat (bw_bufsize s))" by simp
  from p 1 2 u a b la lb show ?thesis by blast
qed




end
